theory Spec2Isabelle
  imports Complex_Main "HOL-Library.Log_Nat"
begin

section \<open>Python floats\<close>

text \<open>
  The flowsheet scripts and the configuration dictionaries compute with Python floats, that
  is, with IEEE 754 binary64 numbers. A float is infinite, not a number, or finite; a
  finite float is modelled by the real number it denotes. The sign of a zero is not
  modelled: the modelled code could observe it only by dividing by that zero, and Python
  raises on a division by either zero.

  An arithmetic operation computes the exact real result and rounds it: to the nearest
  multiple of the quantum of its binade (53 significant bits, the smallest quantum being
  \<open>2^-1074\<close>), ties going to the even multiple, and to an infinity once the rounded
  magnitude reaches \<open>2^1024\<close>.
\<close>

datatype float = Finite real | PInf | NInf | NaN

definition pow2 :: "int \<Rightarrow> real" where
  "pow2 e = (if 0 \<le> e then 2 ^ nat e else 1 / 2 ^ nat (- e))"

text \<open>The binary exponent of a positive real \<open>x\<close>: the \<open>e\<close> with \<open>2^e \<le> x < 2^(e+1)\<close>.\<close>

definition expo :: "real \<Rightarrow> int" where
  "expo x = (if 1 \<le> x then bitlen \<lfloor>x\<rfloor> - 1 else - bitlen (\<lceil>1 / x\<rceil> - 1))"

definition round_half_even :: "real \<Rightarrow> int" where
  "round_half_even y =
     (let f = \<lfloor>y\<rfloor>; r = y - of_int f
      in if r < 1 / 2 then f else if 1 / 2 < r then f + 1 else if even f then f else f + 1)"

definition quantum :: "real \<Rightarrow> real" where
  "quantum x = pow2 (max (expo \<bar>x\<bar>) (- 1022) - 52)"

definition rnd :: "real \<Rightarrow> real" where
  "rnd x = (if x = 0 then 0 else of_int (round_half_even (x / quantum x)) * quantum x)"

definition fl :: "real \<Rightarrow> float" where
  "fl x =
     (let r = rnd x
      in if 2 ^ 1024 \<le> \<bar>r\<bar> then (if 0 < x then PInf else NInf) else Finite r)"

text \<open>
  Addition, subtraction and multiplication of Python floats never raise. The equations are
  tried in their order.
\<close>

fun fadd :: "float \<Rightarrow> float \<Rightarrow> float" where
  "fadd (Finite a) (Finite b) = fl (a + b)"
| "fadd NaN _ = NaN"
| "fadd _ NaN = NaN"
| "fadd PInf NInf = NaN"
| "fadd NInf PInf = NaN"
| "fadd PInf _ = PInf"
| "fadd _ PInf = PInf"
| "fadd NInf _ = NInf"
| "fadd _ NInf = NInf"

fun fsub :: "float \<Rightarrow> float \<Rightarrow> float" where
  "fsub (Finite a) (Finite b) = fl (a - b)"
| "fsub NaN _ = NaN"
| "fsub _ NaN = NaN"
| "fsub PInf PInf = NaN"
| "fsub NInf NInf = NaN"
| "fsub PInf _ = PInf"
| "fsub _ PInf = NInf"
| "fsub NInf _ = NInf"
| "fsub _ NInf = PInf"

fun fmul :: "float \<Rightarrow> float \<Rightarrow> float" where
  "fmul (Finite a) (Finite b) = fl (a * b)"
| "fmul NaN _ = NaN"
| "fmul _ NaN = NaN"
| "fmul (Finite a) PInf = (if a = 0 then NaN else if 0 < a then PInf else NInf)"
| "fmul (Finite a) NInf = (if a = 0 then NaN else if 0 < a then NInf else PInf)"
| "fmul PInf (Finite b) = (if b = 0 then NaN else if 0 < b then PInf else NInf)"
| "fmul NInf (Finite b) = (if b = 0 then NaN else if 0 < b then NInf else PInf)"
| "fmul PInf PInf = PInf"
| "fmul NInf NInf = PInf"
| "fmul PInf NInf = NInf"
| "fmul NInf PInf = NInf"

text \<open>The quotient of two floats whose divisor is not zero.\<close>

fun fdiv :: "float \<Rightarrow> float \<Rightarrow> float" where
  "fdiv (Finite a) (Finite b) = fl (a / b)"
| "fdiv NaN _ = NaN"
| "fdiv _ NaN = NaN"
| "fdiv (Finite a) PInf = Finite 0"
| "fdiv (Finite a) NInf = Finite 0"
| "fdiv PInf (Finite b) = (if 0 < b then PInf else NInf)"
| "fdiv NInf (Finite b) = (if 0 < b then NInf else PInf)"
| "fdiv PInf PInf = NaN"
| "fdiv NInf NInf = NaN"
| "fdiv PInf NInf = NaN"
| "fdiv NInf PInf = NaN"

text \<open>
  Python's true division raises \<open>ZeroDivisionError\<close> when the divisor is zero, whatever
  the dividend, and never raises otherwise: an overflowing quotient is an infinity. A
  dictionary lookup of an absent key raises \<open>KeyError\<close>.
\<close>

datatype error = ZeroDivisionError | KeyError | ConfigurationError

definition py_truediv :: "float \<Rightarrow> float \<Rightarrow> error + float" where
  "py_truediv a b = (if b = Finite 0 then Inl ZeroDivisionError else Inr (fdiv a b))"

section \<open>Conversion of TDS into solute ions\<close>

text \<open>
  Step 5 of the evaporator and MVC examples:
  \<^verbatim>\<open>
  m.fs.set_ions = Set(initialize=["Na+", "Cl-"])
  m.fs.ion_coeff = {"Na+": 1, "Cl-": 1}
  m.fs.enrtl_state.mol_mass_ion_molecule = sum(m.fs.ion_coeff[j] * sb_enrtl.mw_comp[j]
                                               for j in m.fs.set_ions)
  m.fs.enrtl_state.mass_ratio_ion = {
      "Na+": sb_enrtl.mw_comp["Na+"] / m.fs.enrtl_state.mol_mass_ion_molecule,
      "Cl-": sb_enrtl.mw_comp["Cl-"] / m.fs.enrtl_state.mol_mass_ion_molecule
  }
  \<close>
  The molecular weights \<open>mw_comp\<close> belong to the state block and are a parameter of the
  model. The integer coefficients become floats when they are multiplied with a molecular
  weight. Python's \<open>sum\<close> starts from 0 and adds the terms from the left.
\<close>

definition set_ions :: "string list" where
  "set_ions = [''Na+'', ''Cl-'']"

definition ion_coeff :: "string \<rightharpoonup> float" where
  "ion_coeff = [''Na+'' \<mapsto> Finite 1, ''Cl-'' \<mapsto> Finite 1]"

fun sum_coeff_mw ::
  "(string \<rightharpoonup> float) \<Rightarrow> (string \<Rightarrow> float) \<Rightarrow> float \<Rightarrow> string list \<Rightarrow> error + float" where
  "sum_coeff_mw coeff mw_comp acc [] = Inr acc"
| "sum_coeff_mw coeff mw_comp acc (j # js) =
     (case coeff j of
        None \<Rightarrow> Inl KeyError
      | Some c \<Rightarrow> sum_coeff_mw coeff mw_comp (fadd acc (fmul c (mw_comp j))) js)"

definition mol_mass_ion_molecule :: "(string \<Rightarrow> float) \<Rightarrow> error + float" where
  "mol_mass_ion_molecule mw_comp = sum_coeff_mw ion_coeff mw_comp (Finite 0) set_ions"

definition mass_ratio_ion :: "(string \<Rightarrow> float) \<Rightarrow> error + (string \<rightharpoonup> float)" where
  "mass_ratio_ion mw_comp =
     (case mol_mass_ion_molecule mw_comp of
        Inl e \<Rightarrow> Inl e
      | Inr M \<Rightarrow>
          (case py_truediv (mw_comp ''Na+'') M of
             Inl e \<Rightarrow> Inl e
           | Inr rNa \<Rightarrow>
               (case py_truediv (mw_comp ''Cl-'') M of
                  Inl e \<Rightarrow> Inl e
                | Inr rCl \<Rightarrow> Inr [''Na+'' \<mapsto> rNa, ''Cl-'' \<mapsto> rCl])))"

text \<open>
  The flow constraint, one per ion \<open>j\<close> of \<open>set_ions\<close>:
  \<^verbatim>\<open>
  def eq_enrtl_flow_mass_ion_comp(b, j):
      flow_mass_in = b.properties[0].flow_mass_phase_comp["Liq", j]
      return flow_mass_in == (brine.flow_mass_phase_comp["Liq", "TDS"] * b.mass_ratio_ion[j])
  \<close>
  The constraint is returned as the pair of its two sides: the mass flow of the ion in the
  eNRTL state block, and the TDS mass flow of the brine times the mass ratio of the ion.
\<close>

definition eq_enrtl_flow_mass_ion_comp ::
  "(string \<rightharpoonup> float) \<Rightarrow> (string \<Rightarrow> float) \<Rightarrow> float \<Rightarrow> string \<Rightarrow> error + float \<times> float" where
  "eq_enrtl_flow_mass_ion_comp ratio flow_mass_phase_comp flow_mass_TDS j =
     (case ratio j of
        None \<Rightarrow> Inl KeyError
      | Some r \<Rightarrow> Inr (flow_mass_phase_comp j, fmul flow_mass_TDS r))"

text \<open>
  The molecular weights of the two ions in the eNRTL configuration of the examples:
  \<^verbatim>\<open>
  "Na+": {"type": Cation, "charge": +1,
          "parameter_data": {"mw": (22.990e-3, pyunits.kg/pyunits.mol)}},
  "Cl-": {"type": Anion, "charge": -1,
          "parameter_data": {"mw": (35.453e-3, pyunits.kg/pyunits.mol)}}
  \<close>
\<close>

definition mw_comp_NaCl :: "string \<Rightarrow> float" where
  "mw_comp_NaCl j = (if j = ''Na+'' then fl 0.022990 else fl 0.035453)"

section \<open>Vapor-liquid equilibrium constraints of the evaporator\<close>

text \<open>
  The ideal equation of Part I uses the parameter \<open>act_coeff\<close>, initialised to 1; the
  nonideal equation of Part II takes the activity coefficient of water from the eNRTL
  state block.
  \<^verbatim>\<open>
  m.fs.ideal.act_coeff = pyo.Param(initialize=1, ...)
  def _eq_ideal_phase_equilibrium(b):
      return b.evaporator.properties_brine[0].pressure == (
          m.fs.ideal.act_coeff*
          b.evaporator.properties_brine[0].mole_frac_phase_comp["Liq", "H2O"]*
          b.evaporator.properties_vapor[0].pressure_sat)
  def _eq_nonideal_phase_equilibrium(b):
      return b.evaporator.properties_brine[0].pressure == (
          b.enrtl_state.properties[0].act_coeff_phase_comp["Liq", "H2O"]*
          b.evaporator.properties_brine[0].mole_frac_phase_comp["Liq", "H2O"]*
          b.evaporator.properties_vapor[0].pressure_sat)
  \<close>
  A constraint is the pair of its two sides; it holds where they are equal.
\<close>

type_synonym constraint = "real \<times> real"

definition holds :: "constraint \<Rightarrow> bool" where
  "holds c = (fst c = snd c)"

record evaporator_state =
  brine_pressure :: real
  brine_mole_frac_H2O :: real
  vapor_pressure_sat :: real

definition act_coeff :: real where
  "act_coeff = 1"

definition eq_ideal_phase_equilibrium :: "evaporator_state \<Rightarrow> constraint" where
  "eq_ideal_phase_equilibrium b =
     (brine_pressure b, act_coeff * brine_mole_frac_H2O b * vapor_pressure_sat b)"

definition eq_nonideal_phase_equilibrium :: "real \<Rightarrow> evaporator_state \<Rightarrow> constraint" where
  "eq_nonideal_phase_equilibrium act_coeff_Liq_H2O b =
     (brine_pressure b, act_coeff_Liq_H2O * brine_mole_frac_H2O b * vapor_pressure_sat b)"

section \<open>Relative permittivity of the multi-electrolyte configuration\<close>

text \<open>
  The configuration dictionary of the multi-electrolyte r-eNRTL hands this callable to the
  activity-coefficient model, which evaluates it at the temperature of the trial state.
  \<^verbatim>\<open>
  def relative_permittivity_expr(b, s, T):
      AM = 78.54003
      BM = 31989.38 * pyunits.K
      CM = 298.15 * pyunits.K
      return AM + BM * (1 / T * pyunits.K - 1 / CM)
  \<close>
  A decimal literal denotes the float nearest to it. Units carry no numeric factor. The
  divisions are evaluated in the order of the source: \<open>1 / T\<close> first, then \<open>1 / CM\<close>.
\<close>

definition AM :: float where "AM = fl 78.54003"
definition BM :: float where "BM = fl 31989.38"
definition CM :: float where "CM = fl 298.15"

definition relative_permittivity_expr :: "float \<Rightarrow> error + float" where
  "relative_permittivity_expr T =
     (case py_truediv (Finite 1) T of
        Inl e \<Rightarrow> Inl e
      | Inr inv_T \<Rightarrow>
          (case py_truediv (Finite 1) CM of
             Inl e \<Rightarrow> Inl e
           | Inr inv_CM \<Rightarrow> Inr (fadd AM (fmul BM (fsub inv_T inv_CM)))))"

section \<open>The \<open>Liq_tau\<close> table of the multi-electrolyte configuration\<close>








section \<open>The Parameter Registry's check of the \<open>\<tau>\<close> table\<close>








section \<open>Rounding error of a float operation\<close>

lemmas fl_eval =
  fl_def rnd_def quantum_def expo_def round_half_even_def compute_bitlen Let_def pow2_def

lemma pow2_powi: "pow2 e = 2 powi e"
  by (simp add: pow2_def power_int_def power_one_over inverse_eq_divide)

lemma pow2_pos: "0 < pow2 e"
  by (simp add: pow2_powi)

lemma expo_le:
  assumes "0 < x"
  shows "pow2 (expo x) \<le> x"
proof (cases "1 \<le> x")
  case True
  let ?n = "\<lfloor>x\<rfloor>"
  from True have n: "0 < ?n" by simp
  from bitlen_bounds [OF n] have b: "2 ^ nat (bitlen ?n - 1) \<le> ?n" by simp
  have ge: "0 \<le> bitlen ?n - 1"
    using n by (simp add: bitlen_alt_def)
  have "pow2 (expo x) = 2 ^ nat (bitlen ?n - 1)"
    using True ge by (simp add: expo_def pow2_def)
  also have "\<dots> = real_of_int (2 ^ nat (bitlen ?n - 1))" by simp
  also have "\<dots> \<le> real_of_int ?n" using b by (simp only: of_int_le_iff)
  also have "\<dots> \<le> x" by simp
  finally show ?thesis .
next
  case False
  let ?c = "\<lceil>1 / x\<rceil>"
  let ?n = "?c - 1"
  from False assms have t: "1 < 1 / x" by simp
  then have c: "2 \<le> ?c" by (simp add: le_ceiling_iff)
  then have n: "0 < ?n" by simp
  from bitlen_bounds [OF n] have b: "?n < 2 ^ nat (bitlen ?n)" by simp
  then have "?c \<le> 2 ^ nat (bitlen ?n)" by simp
  then have "real_of_int ?c \<le> real_of_int (2 ^ nat (bitlen ?n))"
    by (simp only: of_int_le_iff)
  then have c2: "real_of_int ?c \<le> 2 ^ nat (bitlen ?n)" by simp
  have "1 / x \<le> real_of_int ?c" by (rule le_of_int_ceiling)
  with c2 have "1 / x \<le> 2 ^ nat (bitlen ?n)" by linarith
  then have le: "1 / 2 ^ nat (bitlen ?n) \<le> x"
    using assms by (simp add: field_simps)
  have pos: "0 < bitlen ?n" using n by (simp add: bitlen_alt_def)
  have "pow2 (expo x) = 1 / 2 ^ nat (bitlen ?n)"
    using False pos by (simp add: expo_def pow2_def)
  with le show ?thesis by simp
qed

lemma round_half_even_err: "\<bar>of_int (round_half_even y) - y\<bar> \<le> 1 / 2"
  unfolding round_half_even_def Let_def
  by (auto simp: abs_le_iff)

lemma quantum_pos: "0 < quantum x"
  by (simp add: quantum_def pow2_pos)

lemma rnd_quantum: "\<bar>rnd x - x\<bar> \<le> quantum x / 2"
proof (cases "x = 0")
  case True
  then show ?thesis using quantum_pos [of x] by (simp add: rnd_def)
next
  case False
  let ?q = "quantum x"
  have q: "0 < ?q" by (rule quantum_pos)
  have "rnd x - x = (of_int (round_half_even (x / ?q)) - x / ?q) * ?q"
    using False q by (simp add: rnd_def field_simps)
  then have "\<bar>rnd x - x\<bar> = \<bar>of_int (round_half_even (x / ?q)) - x / ?q\<bar> * ?q"
    using q by (simp add: abs_mult)
  also have "\<dots> \<le> (1 / 2) * ?q"
    using round_half_even_err [of "x / ?q"] q by (intro mult_right_mono) simp_all
  finally show ?thesis by simp
qed

lemma pow2_diff: "pow2 (a - b) = pow2 a / pow2 b"
  by (simp add: pow2_powi power_int_diff)

lemma pow2_52: "pow2 52 = 2 ^ 52"
  by (simp add: pow2_def)

lemma pow2_m1022: "pow2 (- 1022) = 1 / 2 ^ 1022"
  by (simp add: pow2_def)

lemma quantum_le:
  assumes "x \<noteq> 0"
  shows "quantum x \<le> max (\<bar>x\<bar> / 2 ^ 52) (1 / 2 ^ 1074)"
proof (cases "- 1022 \<le> expo \<bar>x\<bar>")
  case True
  then have "quantum x = pow2 (expo \<bar>x\<bar>) / 2 ^ 52"
    by (simp add: quantum_def max_def pow2_diff pow2_52)
  also have "\<dots> \<le> \<bar>x\<bar> / 2 ^ 52"
    using expo_le [of "\<bar>x\<bar>"] assms by (simp add: divide_right_mono)
  finally show ?thesis by simp
next
  case False
  then have "quantum x = pow2 (- 1074)"
    by (simp add: quantum_def max_def)
  also have "\<dots> = 1 / 2 ^ 1074"
    by (simp add: pow2_def)
  finally show ?thesis by simp
qed

lemma rnd_err: "\<bar>rnd x - x\<bar> \<le> \<bar>x\<bar> / 2 ^ 53 + 1 / 2 ^ 1075"
proof (cases "x = 0")
  case True
  then show ?thesis by (simp add: rnd_def)
next
  case False
  have "\<bar>rnd x - x\<bar> \<le> quantum x / 2" by (rule rnd_quantum)
  also have "\<dots> \<le> max (\<bar>x\<bar> / 2 ^ 52) (1 / 2 ^ 1074) / 2"
    using quantum_le [OF False] by simp
  also have "\<dots> \<le> (\<bar>x\<bar> / 2 ^ 52 + 1 / 2 ^ 1074) / 2"
    by (simp add: max_def)
  also have "\<dots> = \<bar>x\<bar> / 2 ^ 53 + 1 / 2 ^ 1075"
    by (simp add: add_divide_distrib)
  finally show ?thesis .
qed

lemma rnd_err_normal:
  assumes "1 / 2 ^ 1022 \<le> \<bar>x\<bar>"
  shows "\<bar>rnd x - x\<bar> \<le> \<bar>x\<bar> / 2 ^ 53"
proof -
  from assms have nz: "x \<noteq> 0" by auto
  have "(1::real) / 2 ^ 1074 = (1 / 2 ^ 1022) / 2 ^ 52"
    by (simp add: power_add [symmetric] del: power_numeral)
  also have "\<dots> \<le> \<bar>x\<bar> / 2 ^ 52"
    using assms by (simp add: divide_right_mono)
  finally have "max (\<bar>x\<bar> / 2 ^ 52) (1 / 2 ^ 1074) = \<bar>x\<bar> / 2 ^ 52"
    by (simp add: max_def)
  with quantum_le [OF nz] have "quantum x \<le> \<bar>x\<bar> / 2 ^ 52" by simp
  with rnd_quantum [of x] have "\<bar>rnd x - x\<bar> \<le> (\<bar>x\<bar> / 2 ^ 52) / 2" by simp
  then show ?thesis by simp
qed

lemma fl_Finite: "\<bar>rnd x\<bar> < 2 ^ 1024 \<Longrightarrow> fl x = Finite (rnd x)"
  by (simp add: fl_def Let_def)

text \<open>
  A float is an integer multiple of \<open>2^-1074\<close>, and such a multiple below
  \<open>2^-1022\<close> is a float: the sum of two floats is rounded with a relative error of at
  most \<open>2^-53\<close> also where it is subnormal.
\<close>

lemma pow2_mono: "a \<le> b \<Longrightarrow> pow2 a \<le> pow2 b"
  by (simp add: pow2_powi power_int_increasing)

lemma pow2_grid:
  assumes "- 1074 \<le> k"
  shows "pow2 k = of_int (2 ^ nat (k + 1074)) / 2 ^ 1074"
proof (cases "0 \<le> k")
  case True
  then have "nat (k + 1074) = nat k + 1074" by simp
  then have "(2::real) ^ nat (k + 1074) = 2 ^ nat k * 2 ^ 1074"
    by (simp only: power_add)
  then show ?thesis using True by (simp add: pow2_def del: power_numeral)
next
  case False
  then have "nat (k + 1074) + nat (- k) = 1074" using assms by simp
  then have "(2::real) ^ 1074 = 2 ^ nat (k + 1074) * 2 ^ nat (- k)"
    by (simp only: power_add [symmetric])
  then show ?thesis using False by (simp add: pow2_def field_simps del: power_numeral)
qed

lemma float_grid:
  assumes "rnd a = a"
  shows "\<exists>n::int. a = of_int n / 2 ^ 1074"
proof (cases "a = 0")
  case True
  then have "a = of_int 0 / 2 ^ 1074" by (simp del: power_numeral)
  then show ?thesis by blast
next
  case False
  define k where "k = max (expo \<bar>a\<bar>) (- 1022) - 52"
  define m where "m = round_half_even (a / quantum a)"
  have k: "- 1074 \<le> k" by (simp add: k_def)
  have "a = of_int m * quantum a" using assms False by (simp add: rnd_def m_def)
  also have "quantum a = of_int (2 ^ nat (k + 1074)) / 2 ^ 1074"
    unfolding quantum_def k_def [symmetric] by (rule pow2_grid [OF k])
  finally have "a = of_int (m * 2 ^ nat (k + 1074)) / 2 ^ 1074"
    by (simp del: power_numeral)
  then show ?thesis by blast
qed

lemma grid_small_exact:
  assumes "x = of_int n / 2 ^ 1074" and "\<bar>x\<bar> < 1 / 2 ^ 1022"
  shows "rnd x = x"
proof (cases "x = 0")
  case True
  then show ?thesis by (simp add: rnd_def)
next
  case False
  have "expo \<bar>x\<bar> < - 1022"
  proof (rule ccontr)
    assume "\<not> expo \<bar>x\<bar> < - 1022"
    then have "pow2 (- 1022) \<le> pow2 (expo \<bar>x\<bar>)" by (intro pow2_mono) simp
    also have "\<dots> \<le> \<bar>x\<bar>" using False by (intro expo_le) simp
    finally show False using assms(2) by (simp add: pow2_m1022)
  qed
  then have "quantum x = pow2 (- 1074)" by (simp add: quantum_def max_def)
  then have q: "quantum x = 1 / 2 ^ 1074" by (simp add: pow2_def)
  have "x / quantum x = x / (1 / 2 ^ 1074)" by (simp only: q)
  also have "\<dots> = of_int n" unfolding assms(1) by (simp del: power_numeral)
  finally have "x / quantum x = of_int n" .
  moreover have "round_half_even (of_int n) = n" by (simp add: round_half_even_def)
  ultimately have "rnd x = of_int n * quantum x" using False by (simp add: rnd_def)
  also have "\<dots> = of_int n / 2 ^ 1074" by (simp only: q) simp
  finally show ?thesis by (simp only: assms(1))
qed

lemma rnd_sum_err:
  assumes "rnd a = a" and "rnd b = b" and "0 < a + b"
  shows "\<bar>rnd (a + b) - (a + b)\<bar> \<le> (a + b) / 2 ^ 53"
proof (cases "1 / 2 ^ 1022 \<le> a + b")
  case True
  then have "1 / 2 ^ 1022 \<le> \<bar>a + b\<bar>" by simp
  from rnd_err_normal [OF this] assms(3) show ?thesis by simp
next
  case False
  from float_grid [OF assms(1)] obtain n :: int where n: "a = of_int n / 2 ^ 1074" ..
  from float_grid [OF assms(2)] obtain m :: int where m: "b = of_int m / 2 ^ 1074" ..
  have "a + b = of_int (n + m) / 2 ^ 1074"
    by (simp add: n m add_divide_distrib del: power_numeral)
  moreover have "\<bar>a + b\<bar> < 1 / 2 ^ 1022" using False assms(3) by simp
  ultimately have "rnd (a + b) = a + b" by (rule grid_small_exact)
  then show ?thesis using assms(3) by simp
qed

text \<open>Powers of two are floats, and from \<open>2^1024\<close> on they overflow.\<close>

lemma expo_pow2: "expo (2 ^ n) = int n"
proof -
  have "\<lfloor>(2::real) ^ n\<rfloor> = 2 ^ n"
    by (metis floor_of_int of_int_numeral of_int_power)
  moreover have "bitlen (2 ^ n) = 1 + int n"
    using bitlen_pow2 [of 1 n] by (simp add: bitlen_alt_def)
  ultimately show ?thesis by (simp add: expo_def)
qed

lemma rnd_pow2:
  assumes "52 \<le> n"
  shows "rnd (2 ^ n) = 2 ^ n"
proof -
  have q: "quantum (2 ^ n) = 2 ^ (n - 52)"
    using assms by (simp add: quantum_def expo_pow2 pow2_def max_def nat_diff_distrib)
  have "(2::real) ^ n = 2 ^ 52 * 2 ^ (n - 52)"
    using assms by (simp add: power_add [symmetric] del: power_numeral)
  then have d: "(2::real) ^ n / 2 ^ (n - 52) = 2 ^ 52" by simp
  have r: "round_half_even (2 ^ 52) = 2 ^ 52"
    by (simp add: round_half_even_def Let_def)
  have "rnd (2 ^ n) = of_int (round_half_even (2 ^ n / 2 ^ (n - 52))) * 2 ^ (n - 52)"
    by (simp add: rnd_def q)
  also have "\<dots> = 2 ^ 52 * 2 ^ (n - 52)" by (simp only: d r) simp
  also have "\<dots> = 2 ^ n" using assms by (simp add: power_add [symmetric] del: power_numeral)
  finally show ?thesis .
qed

lemma fl_pow2_overflow: "1024 \<le> n \<Longrightarrow> fl (2 ^ n) = PInf"
  by (simp add: fl_def Let_def rnd_pow2 power_increasing del: power_numeral)

lemma fl_pow2_1023: "fl (2 ^ 1023) = Finite (2 ^ 1023)"
  by (rule trans [OF fl_Finite]) (simp_all add: rnd_pow2 del: power_numeral)

text \<open>
  The error analysis of the mass ratios and of the flow constraints, over the reals, for a
  relative rounding error \<open>u\<close> and an absolute underflow error \<open>eta\<close>.
\<close>

lemma ratio_bounds:
  fixes u eta S M a b r1 r2 :: real
  assumes u: "0 < u" "u \<le> 1 / 8" and eta: "0 \<le> eta" "eta \<le> u / 8"
    and a: "0 \<le> a" and b: "0 \<le> b" and S: "0 < S" "a + b = S"
    and M: "\<bar>M - S\<bar> \<le> u * S"
    and r1: "\<bar>r1 - a / M\<bar> \<le> u * (a / M) + eta"
    and r2: "\<bar>r2 - b / M\<bar> \<le> u * (b / M) + eta"
  shows "0 < M" and "\<bar>r1\<bar> \<le> 2" and "\<bar>r2\<bar> \<le> 2" and "\<bar>r1\<bar> + \<bar>r2\<bar> \<le> 2"
    and "\<bar>(r1 + r2) - 1\<bar> \<le> 4 * u + 2 * eta"
    and "\<bar>r1 - a / S\<bar> \<le> 3 * u + eta" and "\<bar>r2 - b / S\<bar> \<le> 3 * u + eta"
proof -
  from M have Mlo: "(1 - u) * S \<le> M" by (simp add: abs_le_iff algebra_simps)
  have "0 < (1 - u) * S" using u S by simp
  with Mlo show Mpos: "0 < M" by linarith
  define w where "w = S / M"
  have wpos: "0 < w" using S Mpos by (simp add: w_def)
  have "w - 1 = (S - M) / M" using Mpos by (simp add: w_def field_simps)
  then have "\<bar>w - 1\<bar> = \<bar>S - M\<bar> / M" using Mpos by simp
  also have "\<dots> \<le> (u * S) / M"
    using M Mpos by (intro divide_right_mono) (simp_all add: abs_minus_commute)
  also have "\<dots> = u * w" by (simp add: w_def)
  finally have w1: "\<bar>w - 1\<bar> \<le> u * w" .
  then have "w - 1 \<le> u * w" by (simp add: abs_le_iff)
  then have "w * (1 - u) \<le> 1" by (simp add: algebra_simps)
  moreover have "7 / 8 \<le> 1 - u" using u by simp
  ultimately have "w * (7 / 8) \<le> 1"
    using wpos by (meson mult_left_mono order_trans less_imp_le)
  then have w2: "w \<le> 8 / 7" by simp
  have uw: "u * w \<le> u * (8 / 7)" using w2 u by (intro mult_left_mono) simp_all
  have q: "a / M + b / M = w" using S by (simp add: w_def add_divide_distrib [symmetric])
  have qa: "0 \<le> a / M" and qb: "0 \<le> b / M" using a b Mpos by simp_all
  have qa_w: "a / M \<le> w" and qb_w: "b / M \<le> w" using q qa qb by linarith+
  have "u * (a / M) + u * (b / M) = u * (a / M + b / M)" by (simp only: distrib_left)
  with q have ua: "u * (a / M) + u * (b / M) = u * w" by simp
  have "\<bar>r1\<bar> \<le> a / M + (u * (a / M) + eta)" using r1 qa by linarith
  moreover have "\<bar>r2\<bar> \<le> b / M + (u * (b / M) + eta)" using r2 qb by linarith
  ultimately have sum: "\<bar>r1\<bar> + \<bar>r2\<bar> \<le> w + u * w + 2 * eta" using q ua by linarith
  have "w + u * w + 2 * eta \<le> 2" using w2 uw u eta by linarith
  with sum show s2: "\<bar>r1\<bar> + \<bar>r2\<bar> \<le> 2" by linarith
  then show "\<bar>r1\<bar> \<le> 2" and "\<bar>r2\<bar> \<le> 2" by linarith+
  have "\<bar>(r1 + r2) - w\<bar> \<le> \<bar>r1 - a / M\<bar> + \<bar>r2 - b / M\<bar>" using q by linarith
  also have "\<dots> \<le> u * w + 2 * eta" using r1 r2 ua by linarith
  finally have "\<bar>(r1 + r2) - w\<bar> \<le> u * w + 2 * eta" .
  with w1 have "\<bar>(r1 + r2) - 1\<bar> \<le> 2 * (u * w) + 2 * eta" by linarith
  also have "\<dots> \<le> 4 * u + 2 * eta" using uw u by linarith
  finally show "\<bar>(r1 + r2) - 1\<bar> \<le> 4 * u + 2 * eta" .
  have near: "\<bar>r - c / S\<bar> \<le> 3 * u + eta"
    if c: "0 \<le> c" "c / M \<le> w" and r: "\<bar>r - c / M\<bar> \<le> u * (c / M) + eta" for c r
  proof -
    have cM: "0 \<le> c / M" using c Mpos by simp
    have "c / M - c / S = (c / M) * ((S - M) / S)" using S Mpos by (simp add: field_simps)
    then have "\<bar>c / M - c / S\<bar> = \<bar>c / M\<bar> * \<bar>(S - M) / S\<bar>"
      by (simp only: abs_mult)
    also have "\<bar>c / M\<bar> = c / M" using cM by (rule abs_of_nonneg)
    also have "\<bar>(S - M) / S\<bar> = \<bar>S - M\<bar> / S" using S by (simp add: abs_divide)
    finally have "\<bar>c / M - c / S\<bar> = (c / M) * (\<bar>S - M\<bar> / S)" .
    also have "\<bar>S - M\<bar> / S \<le> (u * S) / S"
      using M S by (intro divide_right_mono) (simp_all add: abs_minus_commute)
    then have "(c / M) * (\<bar>S - M\<bar> / S) \<le> (c / M) * u"
      using cM S by (intro mult_left_mono) simp_all
    finally have d: "\<bar>c / M - c / S\<bar> \<le> (c / M) * u" .
    have "(c / M) * u \<le> w * u" using c u by (intro mult_right_mono) simp_all
    then have cu: "u * (c / M) \<le> u * w" by (simp add: mult.commute)
    from d cu have "\<bar>c / M - c / S\<bar> \<le> u * w" by (simp add: mult.commute)
    with r cu uw u show ?thesis by linarith
  qed
  show "\<bar>r1 - a / S\<bar> \<le> 3 * u + eta" by (rule near [OF a qa_w r1])
  show "\<bar>r2 - b / S\<bar> \<le> 3 * u + eta" by (rule near [OF b qb_w r2])
qed

lemma sum_bound:
  fixes u eta z s :: real
  assumes u: "0 < u" "u \<le> 1 / 8" and eta: "0 \<le> eta" "eta \<le> u / 8"
    and z: "\<bar>z - 1\<bar> \<le> 4 * u + 2 * eta"
    and s: "\<bar>s - z\<bar> \<le> u * \<bar>z\<bar> + eta"
  shows "\<bar>s - 1\<bar> \<le> 8 * u"
proof -
  have "\<bar>z\<bar> \<le> 2" using z u eta by linarith
  then have "u * \<bar>z\<bar> \<le> u * 2" using u by (intro mult_left_mono) simp_all
  with s z u eta show ?thesis by linarith
qed

lemma flow_bound:
  fixes u eta t r1 r2 p1 p2 P :: real
  assumes u: "0 < u" "u \<le> 1 / 8" and eta: "0 \<le> eta" "eta \<le> u / 8"
    and r: "\<bar>r1\<bar> + \<bar>r2\<bar> \<le> 2" and z: "\<bar>(r1 + r2) - 1\<bar> \<le> 4 * u + 2 * eta"
    and p1: "\<bar>p1 - t * r1\<bar> \<le> u * \<bar>t * r1\<bar> + eta"
    and p2: "\<bar>p2 - t * r2\<bar> \<le> u * \<bar>t * r2\<bar> + eta"
    and P: "\<bar>P - (p1 + p2)\<bar> \<le> u * \<bar>p1 + p2\<bar> + eta"
  shows "\<bar>p1\<bar> \<le> 3 * \<bar>t\<bar> + 1" and "\<bar>p2\<bar> \<le> 3 * \<bar>t\<bar> + 1" and "\<bar>p1 + p2\<bar> \<le> 3 * \<bar>t\<bar> + 1"
    and "\<bar>P - t\<bar> \<le> 16 * u * \<bar>t\<bar> + 4 * eta"
proof -
  have t0: "0 \<le> \<bar>t\<bar>" by simp
  have tr: "\<bar>t * r1\<bar> + \<bar>t * r2\<bar> \<le> 2 * \<bar>t\<bar>"
  proof -
    have "\<bar>t * r1\<bar> + \<bar>t * r2\<bar> = \<bar>t\<bar> * (\<bar>r1\<bar> + \<bar>r2\<bar>)"
      by (simp add: abs_mult distrib_left)
    also have "\<dots> \<le> \<bar>t\<bar> * 2" using r by (intro mult_left_mono) simp_all
    finally show ?thesis by simp
  qed
  have utr: "u * \<bar>t * r1\<bar> + u * \<bar>t * r2\<bar> \<le> 2 * (u * \<bar>t\<bar>)"
  proof -
    have "u * \<bar>t * r1\<bar> + u * \<bar>t * r2\<bar> = u * (\<bar>t * r1\<bar> + \<bar>t * r2\<bar>)"
      by (simp add: distrib_left)
    also have "\<dots> \<le> u * (2 * \<bar>t\<bar>)" using tr u by (intro mult_left_mono) simp_all
    finally show ?thesis by simp
  qed
  have ut: "u * \<bar>t\<bar> \<le> \<bar>t\<bar> / 8"
  proof -
    have "u * \<bar>t\<bar> \<le> (1 / 8) * \<bar>t\<bar>" using u by (intro mult_right_mono) simp_all
    then show ?thesis by simp
  qed
  have a1: "0 \<le> \<bar>t * r1\<bar>" and a2: "0 \<le> \<bar>t * r2\<bar>" by simp_all
  have u1: "0 \<le> u * \<bar>t * r1\<bar>" and u2: "0 \<le> u * \<bar>t * r2\<bar>" using u by simp_all
  show "\<bar>p1\<bar> \<le> 3 * \<bar>t\<bar> + 1" using p1 tr utr ut a1 a2 u1 u2 u eta by linarith
  show "\<bar>p2\<bar> \<le> 3 * \<bar>t\<bar> + 1" using p2 tr utr ut a1 a2 u1 u2 u eta by linarith
  define X where "X = u * \<bar>t\<bar>"
  define Y where "Y = \<bar>t\<bar> * eta"
  define A where "A = t * (r1 + r2)"
  have X0: "0 \<le> X" using u by (simp add: X_def)
  have X8: "X \<le> \<bar>t\<bar> / 8" using ut by (simp add: X_def)
  have Y8: "Y \<le> X / 8"
  proof -
    have "\<bar>t\<bar> * eta \<le> \<bar>t\<bar> * (u / 8)" using eta by (intro mult_left_mono) simp_all
    then show ?thesis by (simp add: X_def Y_def mult.commute)
  qed
  have tz: "\<bar>A - t\<bar> \<le> 4 * X + 2 * Y"
  proof -
    have "A - t = t * ((r1 + r2) - 1)" by (simp add: A_def algebra_simps)
    then have "\<bar>A - t\<bar> = \<bar>t\<bar> * \<bar>(r1 + r2) - 1\<bar>" by (simp add: abs_mult)
    also have "\<dots> \<le> \<bar>t\<bar> * (4 * u + 2 * eta)" using z by (intro mult_left_mono) simp_all
    also have "\<dots> = 4 * X + 2 * Y" by (simp add: X_def Y_def algebra_simps)
    finally show ?thesis .
  qed
  have d: "\<bar>(p1 + p2) - A\<bar> \<le> 2 * X + 2 * eta"
  proof -
    have "(p1 + p2) - A = (p1 - t * r1) + (p2 - t * r2)"
      by (simp add: A_def algebra_simps)
    then have "\<bar>(p1 + p2) - A\<bar> \<le> \<bar>p1 - t * r1\<bar> + \<bar>p2 - t * r2\<bar>"
      by simp
    with p1 p2 utr show ?thesis unfolding X_def by linarith
  qed
  have pt: "\<bar>(p1 + p2) - t\<bar> \<le> 7 * X + 2 * eta"
    using d tz Y8 X0 by linarith
  then show pp: "\<bar>p1 + p2\<bar> \<le> 3 * \<bar>t\<bar> + 1" using X8 u eta by linarith
  define Q where "Q = \<bar>p1 + p2\<bar>"
  have Q1: "Q \<le> \<bar>t\<bar> + 7 * X + 2 * eta" using pt unfolding Q_def by linarith
  have "u * Q \<le> u * (\<bar>t\<bar> + 7 * X + 2 * eta)"
    using Q1 u by (intro mult_left_mono) simp_all
  also have "\<dots> = X + 7 * (u * X) + 2 * (u * eta)"
    by (simp add: X_def algebra_simps)
  finally have uQ: "u * Q \<le> X + 7 * (u * X) + 2 * (u * eta)" .
  have uX: "u * X \<le> X / 8"
  proof -
    have "u * X \<le> (1 / 8) * X" using u X0 by (intro mult_right_mono) simp_all
    then show ?thesis by simp
  qed
  have ue: "u * eta \<le> eta / 8"
  proof -
    have "u * eta \<le> (1 / 8) * eta" using u eta by (intro mult_right_mono) simp_all
    then show ?thesis by simp
  qed
  have up2: "u * Q \<le> 2 * X + eta" using uQ uX ue X0 eta by linarith
  have "\<bar>P - (p1 + p2)\<bar> \<le> u * Q + eta" using P by (simp add: Q_def)
  with up2 pt have "\<bar>P - t\<bar> \<le> 9 * X + 4 * eta" by linarith
  with X0 have "\<bar>P - t\<bar> \<le> 16 * X + 4 * eta" by linarith
  then show "\<bar>P - t\<bar> \<le> 16 * u * \<bar>t\<bar> + 4 * eta" by (simp add: X_def)
qed

section \<open>Mass conservation of the TDS-to-ion conversion\<close>

lemma unit_roundoff:
  "(0::real) < 1 / 2 ^ 53" "(1::real) / 2 ^ 53 \<le> 1 / 8"
  "(0::real) \<le> 1 / 2 ^ 1075" "(1::real) / 2 ^ 1075 \<le> (1 / 2 ^ 53) / 8"
  by simp_all

lemma mol_mass_ion_molecule_eq:
  assumes "mw_comp ''Na+'' = Finite a" and "mw_comp ''Cl-'' = Finite b"
    and "0 < a" and "0 < b" and "rnd a = a" and "rnd b = b"
    and "a < 2 ^ 1024" and "b < 2 ^ 1024" and "rnd (a + b) < 2 ^ 1024"
  shows "mol_mass_ion_molecule mw_comp = Inr (Finite (rnd (a + b)))"
proof -
  have fa: "fl a = Finite a"
    using fl_Finite [of a] assms by simp
  have fb: "fl b = Finite b"
    using fl_Finite [of b] assms by simp
  have "\<bar>rnd (a + b) - (a + b)\<bar> \<le> (a + b) / 2 ^ 53"
    using assms by (intro rnd_sum_err) simp_all
  moreover have "(a + b) / 2 ^ 53 \<le> a + b" using assms(3,4) by (simp add: field_simps)
  ultimately have "0 \<le> rnd (a + b)" by linarith
  with assms(9) have "\<bar>rnd (a + b)\<bar> < 2 ^ 1024" by simp
  then have fs: "fl (a + b) = Finite (rnd (a + b))" by (rule fl_Finite)
  show ?thesis
    by (simp add: mol_mass_ion_molecule_def set_ions_def ion_coeff_def assms(1,2) fa fb fs)
qed

text \<open>
  Claim C9, as stated, fails: for the positive molecular weights 0.027738 and 0.169639 the
  two mass ratios, computed as the code computes them, sum to 0.9999999999999999, the
  float just below 1.
\<close>

theorem mass_ratio_ion_sum_below_one:
  "mass_ratio_ion (mw_comp_NaCl(''Na+'' := fl 0.027738, ''Cl-'' := fl 0.169639))
     = Inr [''Na+'' \<mapsto> Finite (5063238227919273 / 2 ^ 55),
            ''Cl-'' \<mapsto> Finite (7741389697761173 / 2 ^ 53)]
 \<and> fadd (Finite (5063238227919273 / 2 ^ 55)) (Finite (7741389697761173 / 2 ^ 53))
     = Finite (9007199254740991 / 2 ^ 53)
 \<and> Finite (9007199254740991 / 2 ^ 53) \<noteq> Finite 1"
proof -
  define mw where "mw = mw_comp_NaCl(''Na+'' := fl 0.027738, ''Cl-'' := fl 0.169639)"
  have a: "mw ''Na+'' = Finite (1998733543424045 / 2 ^ 56)"
    by (simp add: mw_def fl_eval)
  have b: "mw ''Cl-'' = Finite (6111889097500029 / 2 ^ 55)"
    by (simp add: mw_def fl_eval)
  have M: "mol_mass_ion_molecule mw = Inr (Finite (1777813967303013 / 2 ^ 53))"
    by (simp add: mol_mass_ion_molecule_def set_ions_def ion_coeff_def a b fl_eval)
  have r: "mass_ratio_ion mw
     = Inr [''Na+'' \<mapsto> Finite (5063238227919273 / 2 ^ 55),
            ''Cl-'' \<mapsto> Finite (7741389697761173 / 2 ^ 53)]"
    by (simp add: mass_ratio_ion_def M py_truediv_def a b fl_eval)
  have s: "fadd (Finite (5063238227919273 / 2 ^ 55)) (Finite (7741389697761173 / 2 ^ 53))
     = Finite (9007199254740991 / 2 ^ 53)"
    by (simp add: fl_eval)
  have n: "Finite (9007199254740991 / 2 ^ 53) \<noteq> Finite 1" by simp
  from r s n show ?thesis unfolding mw_def by blast
qed

text \<open>
  Claim C9, amended. For every pair of positive float molecular weights of the two ions
  whose float sum does not overflow, the mass ratios \<open>mass_ratio_ion["Na+"]\<close> and
  \<open>mass_ratio_ion["Cl-"]\<close> are computed without error, each is the molecular weight of
  its ion divided by the molar mass of the ion molecule up to \<open>2^-51\<close>, and they sum to
  1 up to the rounding of the float operations: their float sum differs from 1 by at most
  \<open>2^-50\<close>. Both ion flow constraints are then built without error, each with the mass
  flow of its ion on the left, and for every finite TDS mass flow \<open>t\<close> of the brine of
  magnitude at most \<open>2^1022\<close> the float sum of their right-hand sides is the TDS mass
  flow up to rounding: it differs from \<open>t\<close> by at most \<open>\<bar>t\<bar> * 2^-49 + 2^-1073\<close>.
\<close>

theorem mass_ratio_ion_conserves_mass_up_to_rounding:
  assumes mw: "mw_comp ''Na+'' = Finite a" "mw_comp ''Cl-'' = Finite b"
    and pos: "0 < a" "0 < b"
    and dbl: "rnd a = a" "rnd b = b"
    and lt: "a < 2 ^ 1024" "b < 2 ^ 1024"
    and fin: "rnd (a + b) < 2 ^ 1024"
  shows "\<exists>rNa rCl s.
           mass_ratio_ion mw_comp = Inr [''Na+'' \<mapsto> Finite rNa, ''Cl-'' \<mapsto> Finite rCl]
         \<and> \<bar>rNa - a / (a + b)\<bar> \<le> 1 / 2 ^ 51 \<and> \<bar>rCl - b / (a + b)\<bar> \<le> 1 / 2 ^ 51
         \<and> fadd (Finite rNa) (Finite rCl) = Finite s
         \<and> \<bar>s - 1\<bar> \<le> 1 / 2 ^ 50
         \<and> (\<forall>flow t. \<bar>t\<bar> \<le> 2 ^ 1022 \<longrightarrow>
              (\<exists>pNa pCl P.
                 eq_enrtl_flow_mass_ion_comp
                   [''Na+'' \<mapsto> Finite rNa, ''Cl-'' \<mapsto> Finite rCl] flow (Finite t) ''Na+''
                   = Inr (flow ''Na+'', Finite pNa)
               \<and> eq_enrtl_flow_mass_ion_comp
                   [''Na+'' \<mapsto> Finite rNa, ''Cl-'' \<mapsto> Finite rCl] flow (Finite t) ''Cl-''
                   = Inr (flow ''Cl-'', Finite pCl)
               \<and> fadd (Finite pNa) (Finite pCl) = Finite P
               \<and> \<bar>P - t\<bar> \<le> \<bar>t\<bar> / 2 ^ 49 + 1 / 2 ^ 1073))"
proof -
  define u :: real where "u = 1 / 2 ^ 53"
  define eta :: real where "eta = 1 / 2 ^ 1075"
  have u: "0 < u" "u \<le> 1 / 8" and eta: "0 \<le> eta" "eta \<le> u / 8"
    using unit_roundoff by (simp_all add: u_def eta_def)
  define S where "S = a + b"
  define M where "M = rnd S"
  define r1 where "r1 = rnd (a / M)"
  define r2 where "r2 = rnd (b / M)"
  define s where "s = rnd (r1 + r2)"
  let ?ratio = "[''Na+'' \<mapsto> Finite r1, ''Cl-'' \<mapsto> Finite r2]"
  have S: "0 < S" "a + b = S" using pos by (simp_all add: S_def)
  have "\<bar>rnd (a + b) - (a + b)\<bar> \<le> (a + b) / 2 ^ 53"
    using dbl pos by (intro rnd_sum_err) simp_all
  then have Merr: "\<bar>M - S\<bar> \<le> u * S"
    by (simp add: M_def S_def u_def)
  have "(1 - u) * S \<le> M" using Merr by (simp add: abs_le_iff algebra_simps)
  moreover have "0 < (1 - u) * S" using u S by simp
  ultimately have Mpos: "0 < M" by linarith
  have e1: "\<bar>r1 - a / M\<bar> \<le> u * (a / M) + eta"
  proof -
    have "\<bar>r1 - a / M\<bar> \<le> \<bar>a / M\<bar> / 2 ^ 53 + 1 / 2 ^ 1075"
      unfolding r1_def by (rule rnd_err)
    moreover have "\<bar>a / M\<bar> = a / M" using pos Mpos by simp
    ultimately show ?thesis by (simp add: u_def eta_def)
  qed
  have e2: "\<bar>r2 - b / M\<bar> \<le> u * (b / M) + eta"
  proof -
    have "\<bar>r2 - b / M\<bar> \<le> \<bar>b / M\<bar> / 2 ^ 53 + 1 / 2 ^ 1075"
      unfolding r2_def by (rule rnd_err)
    moreover have "\<bar>b / M\<bar> = b / M" using pos Mpos by simp
    ultimately show ?thesis by (simp add: u_def eta_def)
  qed
  have a0: "0 \<le> a" and b0: "0 \<le> b" using pos by simp_all
  note rb = ratio_bounds [OF u eta a0 b0 S Merr e1 e2]
  have r1_le: "\<bar>r1\<bar> \<le> 2" and r2_le: "\<bar>r2\<bar> \<le> 2" and r12: "\<bar>r1\<bar> + \<bar>r2\<bar> \<le> 2"
    and z: "\<bar>(r1 + r2) - 1\<bar> \<le> 4 * u + 2 * eta"
    and n1: "\<bar>r1 - a / S\<bar> \<le> 3 * u + eta" and n2: "\<bar>r2 - b / S\<bar> \<le> 3 * u + eta"
    using rb by simp_all
  have "3 * u + eta \<le> 1 / 2 ^ 51" by (simp add: u_def eta_def)
  with n1 n2 have near: "\<bar>r1 - a / (a + b)\<bar> \<le> 1 / 2 ^ 51" "\<bar>r2 - b / (a + b)\<bar> \<le> 1 / 2 ^ 51"
    unfolding S_def by linarith+
  have se: "\<bar>s - (r1 + r2)\<bar> \<le> u * \<bar>r1 + r2\<bar> + eta"
  proof -
    have "\<bar>s - (r1 + r2)\<bar> \<le> \<bar>r1 + r2\<bar> / 2 ^ 53 + 1 / 2 ^ 1075"
      unfolding s_def by (rule rnd_err)
    then show ?thesis by (simp add: u_def eta_def)
  qed
  have s1: "\<bar>s - 1\<bar> \<le> 8 * u" by (rule sum_bound [OF u eta z se])
  have s50: "\<bar>s - 1\<bar> \<le> 1 / 2 ^ 50" using s1 by (simp add: u_def)
  have big: "(2::real) < 2 ^ 1024" by simp
  have mm: "mol_mass_ion_molecule mw_comp = Inr (Finite M)"
    using mol_mass_ion_molecule_eq [OF mw pos dbl lt fin] by (simp add: M_def S_def)
  have f1: "fl (a / M) = Finite r1"
    unfolding r1_def using r1_le big by (intro fl_Finite) (simp add: r1_def)
  have f2: "fl (b / M) = Finite r2"
    unfolding r2_def using r2_le big by (intro fl_Finite) (simp add: r2_def)
  have ratio: "mass_ratio_ion mw_comp = Inr ?ratio"
    using Mpos by (simp add: mass_ratio_ion_def mm mw py_truediv_def f1 f2)
  have "\<bar>s\<bar> \<le> 2" using s1 u by linarith
  then have fs: "fl (r1 + r2) = Finite s"
    unfolding s_def using big by (intro fl_Finite) simp
  then have sum: "fadd (Finite r1) (Finite r2) = Finite s" by simp
  have flows: "\<exists>pNa pCl P.
       eq_enrtl_flow_mass_ion_comp ?ratio flow (Finite t) ''Na+'' = Inr (flow ''Na+'', Finite pNa)
     \<and> eq_enrtl_flow_mass_ion_comp ?ratio flow (Finite t) ''Cl-'' = Inr (flow ''Cl-'', Finite pCl)
     \<and> fadd (Finite pNa) (Finite pCl) = Finite P
     \<and> \<bar>P - t\<bar> \<le> \<bar>t\<bar> / 2 ^ 49 + 1 / 2 ^ 1073"
    if t: "\<bar>t\<bar> \<le> 2 ^ 1022" for flow :: "string \<Rightarrow> float" and t :: real
  proof -
    define p1 where "p1 = rnd (t * r1)"
    define p2 where "p2 = rnd (t * r2)"
    define P where "P = rnd (p1 + p2)"
    have pe1: "\<bar>p1 - t * r1\<bar> \<le> u * \<bar>t * r1\<bar> + eta"
    proof -
      have "\<bar>p1 - t * r1\<bar> \<le> \<bar>t * r1\<bar> / 2 ^ 53 + 1 / 2 ^ 1075"
        unfolding p1_def by (rule rnd_err)
      then show ?thesis by (simp add: u_def eta_def)
    qed
    have pe2: "\<bar>p2 - t * r2\<bar> \<le> u * \<bar>t * r2\<bar> + eta"
    proof -
      have "\<bar>p2 - t * r2\<bar> \<le> \<bar>t * r2\<bar> / 2 ^ 53 + 1 / 2 ^ 1075"
        unfolding p2_def by (rule rnd_err)
      then show ?thesis by (simp add: u_def eta_def)
    qed
    have Pe: "\<bar>P - (p1 + p2)\<bar> \<le> u * \<bar>p1 + p2\<bar> + eta"
    proof -
      have "\<bar>P - (p1 + p2)\<bar> \<le> \<bar>p1 + p2\<bar> / 2 ^ 53 + 1 / 2 ^ 1075"
        unfolding P_def by (rule rnd_err)
      then show ?thesis by (simp add: u_def eta_def)
    qed
    note fb = flow_bound [OF u eta r12 z pe1 pe2 Pe]
    have p1_le: "\<bar>p1\<bar> \<le> 3 * \<bar>t\<bar> + 1" and p2_le: "\<bar>p2\<bar> \<le> 3 * \<bar>t\<bar> + 1"
      and Pt: "\<bar>P - t\<bar> \<le> 16 * u * \<bar>t\<bar> + 4 * eta"
      using fb by simp_all
    have lim: "3 * \<bar>t\<bar> + 1 < 2 ^ 1024" using t by simp
    have ut: "16 * u * \<bar>t\<bar> \<le> 2 * \<bar>t\<bar>"
    proof -
      have "(16 * u) * \<bar>t\<bar> \<le> 2 * \<bar>t\<bar>" using u by (intro mult_right_mono) simp_all
      then show ?thesis by simp
    qed
    have "\<bar>P\<bar> \<le> 3 * \<bar>t\<bar> + 1" using Pt ut u eta by linarith
    with lim have P_lt: "\<bar>P\<bar> < 2 ^ 1024" by linarith
    have g1: "fl (t * r1) = Finite p1"
      unfolding p1_def using p1_le lim by (intro fl_Finite) (simp add: p1_def)
    have g2: "fl (t * r2) = Finite p2"
      unfolding p2_def using p2_le lim by (intro fl_Finite) (simp add: p2_def)
    have g3: "fl (p1 + p2) = Finite P"
      unfolding P_def using P_lt by (intro fl_Finite) (simp add: P_def)
    have c1: "eq_enrtl_flow_mass_ion_comp ?ratio flow (Finite t) ''Na+''
        = Inr (flow ''Na+'', Finite p1)"
      by (simp add: eq_enrtl_flow_mass_ion_comp_def g1)
    have c2: "eq_enrtl_flow_mass_ion_comp ?ratio flow (Finite t) ''Cl-''
        = Inr (flow ''Cl-'', Finite p2)"
      by (simp add: eq_enrtl_flow_mass_ion_comp_def g2)
    have c3: "fadd (Finite p1) (Finite p2) = Finite P" using g3 by simp
    have "16 * u * \<bar>t\<bar> + 4 * eta = \<bar>t\<bar> / 2 ^ 49 + 1 / 2 ^ 1073"
      by (simp add: u_def eta_def)
    with Pt have c4: "\<bar>P - t\<bar> \<le> \<bar>t\<bar> / 2 ^ 49 + 1 / 2 ^ 1073" by simp
    from c1 c2 c3 c4 show ?thesis by blast
  qed
  from ratio near sum s50 flows show ?thesis by blast
qed

lemma mw_comp_NaCl_eq:
  "mw_comp_NaCl ''Na+'' = Finite (6626416347727853 / 2 ^ 58)"
  "mw_comp_NaCl ''Cl-'' = Finite (2554657881426659 / 2 ^ 56)"
  by (simp_all add: mw_comp_NaCl_def fl_eval)

lemma mw_comp_NaCl_floats:
  "rnd (6626416347727853 / 2 ^ 58) = 6626416347727853 / 2 ^ 58"
  "rnd (2554657881426659 / 2 ^ 56) = 2554657881426659 / 2 ^ 56"
  by (simp_all add: rnd_def quantum_def expo_def round_half_even_def compute_bitlen Let_def
      pow2_def)

theorem mass_ratio_ion_conserves_mass_up_to_rounding_witness:
  "mw_comp_NaCl ''Na+'' = Finite (6626416347727853 / 2 ^ 58)
 \<and> mw_comp_NaCl ''Cl-'' = Finite (2554657881426659 / 2 ^ 56)
 \<and> (0::real) < 6626416347727853 / 2 ^ 58 \<and> (0::real) < 2554657881426659 / 2 ^ 56
 \<and> rnd (6626416347727853 / 2 ^ 58) = 6626416347727853 / 2 ^ 58
 \<and> rnd (2554657881426659 / 2 ^ 56) = 2554657881426659 / 2 ^ 56
 \<and> (6626416347727853::real) / 2 ^ 58 < 2 ^ 1024
 \<and> (2554657881426659::real) / 2 ^ 56 < 2 ^ 1024
 \<and> rnd (6626416347727853 / 2 ^ 58 + 2554657881426659 / 2 ^ 56) < 2 ^ 1024
 \<and> (\<exists>rNa rCl s.
        mass_ratio_ion mw_comp_NaCl = Inr [''Na+'' \<mapsto> Finite rNa, ''Cl-'' \<mapsto> Finite rCl]
      \<and> \<bar>rNa - (6626416347727853 / 2 ^ 58)
            / (6626416347727853 / 2 ^ 58 + 2554657881426659 / 2 ^ 56)\<bar> \<le> 1 / 2 ^ 51
      \<and> \<bar>rCl - (2554657881426659 / 2 ^ 56)
            / (6626416347727853 / 2 ^ 58 + 2554657881426659 / 2 ^ 56)\<bar> \<le> 1 / 2 ^ 51
      \<and> fadd (Finite rNa) (Finite rCl) = Finite s
      \<and> \<bar>s - 1\<bar> \<le> 1 / 2 ^ 50
      \<and> (\<forall>flow t. \<bar>t\<bar> \<le> 2 ^ 1022 \<longrightarrow>
           (\<exists>pNa pCl P.
              eq_enrtl_flow_mass_ion_comp
                [''Na+'' \<mapsto> Finite rNa, ''Cl-'' \<mapsto> Finite rCl] flow (Finite t) ''Na+''
                = Inr (flow ''Na+'', Finite pNa)
            \<and> eq_enrtl_flow_mass_ion_comp
                [''Na+'' \<mapsto> Finite rNa, ''Cl-'' \<mapsto> Finite rCl] flow (Finite t) ''Cl-''
                = Inr (flow ''Cl-'', Finite pCl)
            \<and> fadd (Finite pNa) (Finite pCl) = Finite P
            \<and> \<bar>P - t\<bar> \<le> \<bar>t\<bar> / 2 ^ 49 + 1 / 2 ^ 1073)))"
proof -
  have h1: "(0::real) < 6626416347727853 / 2 ^ 58" and h2: "(0::real) < 2554657881426659 / 2 ^ 56"
    by simp_all
  have h3: "(6626416347727853::real) / 2 ^ 58 < 2 ^ 1024"
    and h4: "(2554657881426659::real) / 2 ^ 56 < 2 ^ 1024"
    by simp_all
  have "rnd (6626416347727853 / 2 ^ 58 + 2554657881426659 / 2 ^ 56)
      = 2105630984179311 / 2 ^ 55"
    by (simp add: rnd_def quantum_def expo_def round_half_even_def compute_bitlen Let_def
        pow2_def)
  then have h5: "rnd (6626416347727853 / 2 ^ 58 + 2554657881426659 / 2 ^ 56) < 2 ^ 1024"
    by simp
  note c = mass_ratio_ion_conserves_mass_up_to_rounding
    [OF mw_comp_NaCl_eq h1 h2 mw_comp_NaCl_floats h3 h4 h5]
  from mw_comp_NaCl_eq h1 h2 mw_comp_NaCl_floats h3 h4 h5 c show ?thesis by blast
qed

text \<open>
  At the molecular weights of the examples and a TDS mass flow of 0.35 kg/s the rounding
  errors happen to cancel: the two ratios sum to the float 1, and the right-hand sides of
  the two flow constraints sum to the float 0.35.
\<close>

lemma mass_ratio_ion_NaCl:
  "mass_ratio_ion mw_comp_NaCl
     = Inr [''Na+'' \<mapsto> Finite (7086409351556061 / 2 ^ 54),
            ''Cl-'' \<mapsto> Finite (2731997289481481 / 2 ^ 52)]"
  "fadd (Finite (7086409351556061 / 2 ^ 54)) (Finite (2731997289481481 / 2 ^ 52)) = Finite 1"
proof -
  have M: "mol_mass_ion_molecule mw_comp_NaCl = Inr (Finite (2105630984179311 / 2 ^ 55))"
    by (simp add: mol_mass_ion_molecule_def set_ions_def ion_coeff_def mw_comp_NaCl_eq fl_eval)
  show "mass_ratio_ion mw_comp_NaCl
     = Inr [''Na+'' \<mapsto> Finite (7086409351556061 / 2 ^ 54),
            ''Cl-'' \<mapsto> Finite (2731997289481481 / 2 ^ 52)]"
    by (simp add: mass_ratio_ion_def M py_truediv_def mw_comp_NaCl_eq fl_eval)
  show "fadd (Finite (7086409351556061 / 2 ^ 54)) (Finite (2731997289481481 / 2 ^ 52))
      = Finite 1"
    by (simp add: fl_eval)
qed

lemma flow_constraints_NaCl:
  "eq_enrtl_flow_mass_ion_comp
     [''Na+'' \<mapsto> Finite (7086409351556061 / 2 ^ 54),
      ''Cl-'' \<mapsto> Finite (2731997289481481 / 2 ^ 52)] flow (fl 0.35) ''Na+''
     = Inr (flow ''Na+'', Finite (2480243273044621 / 2 ^ 54))"
  "eq_enrtl_flow_mass_ion_comp
     [''Na+'' \<mapsto> Finite (7086409351556061 / 2 ^ 54),
      ''Cl-'' \<mapsto> Finite (2731997289481481 / 2 ^ 52)] flow (fl 0.35) ''Cl-''
     = Inr (flow ''Cl-'', Finite (3824796205274073 / 2 ^ 54))"
  "fadd (Finite (2480243273044621 / 2 ^ 54)) (Finite (3824796205274073 / 2 ^ 54)) = fl 0.35"
  by (simp_all add: eq_enrtl_flow_mass_ion_comp_def fl_eval)

text \<open>
  When the sum of the two molecular weights overflows, the molar mass of the ion molecule
  is infinite, both mass ratios are 0 and so is their sum.
\<close>

lemma mass_ratio_ion_overflow:
  "mass_ratio_ion (mw_comp_NaCl(''Na+'' := Finite (2 ^ 1023), ''Cl-'' := Finite (2 ^ 1023)))
     = Inr [''Na+'' \<mapsto> Finite 0, ''Cl-'' \<mapsto> Finite 0]"
  "fadd (Finite 0) (Finite 0) = Finite 0"
proof -
  define mw where "mw = mw_comp_NaCl(''Na+'' := Finite (2 ^ 1023), ''Cl-'' := Finite (2 ^ 1023))"
  have a: "mw ''Na+'' = Finite (2 ^ 1023)" and b: "mw ''Cl-'' = Finite (2 ^ 1023)"
    by (simp_all add: mw_def del: power_numeral)
  have e: "(2::real) ^ 1023 + 2 ^ 1023 = 2 ^ 1024" by simp
  have "fl (2 ^ 1023 + 2 ^ 1023) = PInf"
    by (simp only: e) (simp add: fl_pow2_overflow del: power_numeral)
  then have M: "mol_mass_ion_molecule mw = Inr PInf"
    by (simp add: mol_mass_ion_molecule_def set_ions_def ion_coeff_def a b fl_pow2_1023
        del: power_numeral)
  have "mass_ratio_ion mw = Inr [''Na+'' \<mapsto> Finite 0, ''Cl-'' \<mapsto> Finite 0]"
    by (simp add: mass_ratio_ion_def M py_truediv_def a b del: power_numeral)
  then show "mass_ratio_ion
      (mw_comp_NaCl(''Na+'' := Finite (2 ^ 1023), ''Cl-'' := Finite (2 ^ 1023)))
     = Inr [''Na+'' \<mapsto> Finite 0, ''Cl-'' \<mapsto> Finite 0]"
    unfolding mw_def .
  show "fadd (Finite 0) (Finite 0) = Finite 0"
    by (simp add: fl_def rnd_def)
qed

section \<open>Where the relative permittivity fails\<close>

lemma AM_eq: "AM = Finite (690845409847007 / 2 ^ 43)"
  by (simp add: AM_def fl_eval)

lemma BM_eq: "BM = Finite (8793173818836255 / 2 ^ 38)"
  by (simp add: BM_def fl_eval)

lemma CM_eq: "CM = Finite (2622555134571315 / 2 ^ 43)"
  by (simp add: CM_def fl_eval)




text \<open>
  At the brine temperature of the worked example the expression evaluates to the float
  67.26807526809718; at an infinite trial temperature it evaluates to the float
  -28.752876255240665.
\<close>

lemma relative_permittivity_expr_values:
  "relative_permittivity_expr (fl 333.15) = Inr (Finite (4733569979864577 / 2 ^ 46))"
  "relative_permittivity_expr PInf = Inr (Finite (- 505825948394265 / 2 ^ 44))"
  by (simp_all add: relative_permittivity_expr_def py_truediv_def AM_eq BM_eq CM_eq fl_eval)

text \<open>
  At the smallest positive float the quotient \<open>1 / T\<close> overflows, and the expression
  evaluates to infinity without raising.
\<close>

lemma relative_permittivity_expr_overflow:
  "relative_permittivity_expr (Finite (1 / 2 ^ 1074)) = Inr PInf"
proof -
  have "fl (1 / (1 / 2 ^ 1074)) = PInf"
    by (simp add: fl_pow2_overflow del: power_numeral)
  then have d: "py_truediv (Finite 1) (Finite (1 / 2 ^ 1074)) = Inr PInf"
    by (simp add: py_truediv_def del: power_numeral)
  have c: "py_truediv (Finite 1) CM = Inr (Finite (7733835348695939 / 2 ^ 61))"
    by (simp add: py_truediv_def CM_eq fl_eval)
  show ?thesis
    by (simp only: relative_permittivity_expr_def d c sum.case) (simp add: AM_eq BM_eq)
qed

section \<open>Cardinalities of the \<open>\<tau>\<close> parameters\<close>








section \<open>The nonideal equilibrium refines the ideal one\<close>

text \<open>
  Claim C10. When the activity coefficient of water delivered by the eNRTL state block
  equals 1, the nonideal vapor-liquid equilibrium constraint is the same equation as the
  ideal constraint built with the parameter \<open>act_coeff\<close>, for every evaporator state; in
  particular one holds exactly where the other does.
\<close>

theorem nonideal_equilibrium_refines_ideal:
  assumes "act_coeff_Liq_H2O = 1"
  shows "eq_nonideal_phase_equilibrium act_coeff_Liq_H2O b = eq_ideal_phase_equilibrium b
       \<and> (holds (eq_nonideal_phase_equilibrium act_coeff_Liq_H2O b)
            \<longleftrightarrow> holds (eq_ideal_phase_equilibrium b))"
  using assms
  by (simp add: eq_nonideal_phase_equilibrium_def eq_ideal_phase_equilibrium_def act_coeff_def)

theorem nonideal_equilibrium_refines_ideal_witness:
  "eq_nonideal_phase_equilibrium 1
     \<lparr>brine_pressure = 30000, brine_mole_frac_H2O = 0.9, vapor_pressure_sat = 20000\<rparr>
   = eq_ideal_phase_equilibrium
     \<lparr>brine_pressure = 30000, brine_mole_frac_H2O = 0.9, vapor_pressure_sat = 20000\<rparr>"
  using nonideal_equilibrium_refines_ideal
    [of 1 "\<lparr>brine_pressure = 30000, brine_mole_frac_H2O = 0.9, vapor_pressure_sat = 20000\<rparr>"]
  by simp

end
